theory Spec2Isabelle
  imports Main "HOL-Library.Word"
begin

section \<open>utils.h: the \<open>check\<close> helper\<close>

text \<open>
  \<^verbatim>\<open>template<typename T> int check(int rc)\<close> (utils.h, lines 41 to 51). The argument
  is a C \<open>int\<close>, modelled as a 32-bit word read in two's complement. The exception type
  \<open>T\<close> is given by its constructor from a message; \<open>strerror\<close> and \<open>errno\<close> belong
  to the C library and are parameters. A thrown exception is the left summand.
\<close>

definition check :: "(string \<Rightarrow> 'e) \<Rightarrow> (int \<Rightarrow> string) \<Rightarrow> int \<Rightarrow> 32 word \<Rightarrow> 'e + 32 word" where
  "check T strerror errno rc =
     (if sint rc < 0
      then (let err = strerror errno; msg = err in Inl (T msg))
      else Inr rc)"

section \<open>flashmq_plugin.h: the result of an authentication call\<close>

text \<open>\<^verbatim>\<open>enum class AuthResult\<close>, with the enumerators in the order of the declaration.\<close>

datatype AuthResult =
    success
  | auth_method_not_supported
  | acl_denied
  | login_denied
  | error
  | auth_continue

text \<open>The integer each enumerator is declared with.\<close>

fun AuthResult_value :: "AuthResult \<Rightarrow> int" where
  "AuthResult_value success = 0"
| "AuthResult_value auth_method_not_supported = 10"
| "AuthResult_value acl_denied = 12"
| "AuthResult_value login_denied = 11"
| "AuthResult_value error = 13"
| "AuthResult_value auth_continue = - 4"

section \<open>threaddata.h: the members read by the keep-alive scheduler\<close>

type_synonym seconds = int
type_synonym instant = int

text \<open>
  \<open>seconds\<close> is \<^verbatim>\<open>std::chrono::seconds\<close>, the key of the keep-alive map. An
  \<open>instant\<close> is a reading of the steady clock in milliseconds, so that one and a half
  times a keep-alive of whole seconds is a whole number.
\<close>

text \<open>
  Modelled from the spec: the reasons for which a client is disconnected (the header
  that declares them is not part of the sources). Section 7 of the specification lists
  the transient per-client errors: malformed packet, authentication denial, keep-alive
  timeout and connection reset.
\<close>

datatype DisconnectReason = MalformedPacket | AuthDenied | KeepAliveTimeout | ConnectionReset

text \<open>
  Modelled from the spec: the class \<open>Client\<close> (client.h is not part of the sources).
  Of the attributes of section 3 the scheduler reads the connection handle, the
  negotiated keep-alive in seconds and the instant of the last activity, and it sets the
  reason of the disconnect.
\<close>

record Client =
  fd :: int
  keepalive :: nat
  last_activity :: instant
  disconnect_reason :: "DisconnectReason option"

text \<open>
  \<^verbatim>\<open>struct KeepAliveCheck\<close> (threaddata.h, lines 44 to 50). A pointer to a \<open>Client\<close>
  is the identity of the object, a number that no other object ever has. The weak
  pointer of a check resolves as long as its object is alive, whether the registry still
  holds the object or not, and never resolves to another object, also not to one that
  took over the same connection handle.
\<close>

record KeepAliveCheck =
  client :: nat
  recheck :: bool

text \<open>
  \<^verbatim>\<open>class ThreadData\<close>: the registry \<open>clients_by_fd\<close> (line 54), from connection
  handles to shared pointers, and the map \<open>queuedKeepAliveChecks\<close> (line 62). The
  \<^verbatim>\<open>std::map\<close> is the list of its buckets in ascending order of their keys, each
  bucket the vector of its checks. The third field is not a member of the class: it is
  the store in which the pointers are resolved, holding the \<open>Client\<close> objects that are
  alive, that is, those to which a shared pointer exists somewhere. The scheduler
  changes objects of the store and destroys none.
\<close>

record ThreadData =
  clients_by_fd :: "int \<rightharpoonup> nat"
  queuedKeepAliveChecks :: "(seconds \<times> KeepAliveCheck list) list"
  client_objects :: "nat \<rightharpoonup> Client"

text \<open>
  \<^verbatim>\<open>queuedKeepAliveChecks[w].push_back(k)\<close> on the ordered map: the bucket \<open>w\<close> is
  created empty at its place when the map has none.
\<close>

fun bucket_push :: "seconds \<Rightarrow> KeepAliveCheck \<Rightarrow> (seconds \<times> KeepAliveCheck list) list
    \<Rightarrow> (seconds \<times> KeepAliveCheck list) list" where
  "bucket_push w k [] = [(w, [k])]"
| "bucket_push w k ((d, ks) # m) =
     (if w = d then (d, ks @ [k]) # m
      else if w < d then (w, [k]) # (d, ks) # m
      else (d, ks) # bucket_push w k m)"

text \<open>Every check of the map, paired with the deadline of its bucket.\<close>

definition bucket_entries ::
    "(seconds \<times> KeepAliveCheck list) list \<Rightarrow> (seconds \<times> KeepAliveCheck) list" where
  "bucket_entries m = concat (map (\<lambda>b. map (Pair (fst b)) (snd b)) m)"

text \<open>The checks queued for the client object \<open>a\<close>, each with its deadline.\<close>

definition checks_of :: "nat \<Rightarrow> ThreadData \<Rightarrow> (seconds \<times> KeepAliveCheck) set" where
  "checks_of a s = {x \<in> set (bucket_entries (queuedKeepAliveChecks s)). client (snd x) = a}"

section \<open>The keep-alive scheduler\<close>

text \<open>
  Modelled from the spec: one and a half times the negotiated keep-alive, in
  milliseconds (section 4.4: a client is disconnected after \<open>1.5 K\<close> seconds of silence).
\<close>

definition keepAliveWindow :: "Client \<Rightarrow> int" where
  "keepAliveWindow c = 1500 * int (keepalive c)"

text \<open>
  Modelled from the spec: an instant rounded up to whole seconds, the unit of the keys
  of the keep-alive map.
\<close>

definition round_up_seconds :: "instant \<Rightarrow> seconds" where
  "round_up_seconds t = (t + 999) div 1000"

text \<open>
  Modelled from the spec: the bucket of the next check of a client (section 4.4:
  the bucket at \<open>now + (1.5 K - idle)\<close>, rounded up).
\<close>

definition keepAliveDeadline :: "instant \<Rightarrow> Client \<Rightarrow> seconds" where
  "keepAliveDeadline now c =
     (let idle = now - last_activity c
      in round_up_seconds (now + (keepAliveWindow c - idle)))"

text \<open>
  Modelled from the spec: \<open>ThreadData::queueClientNextKeepAliveCheck\<close>, of which
  threaddata.h has the declaration only (line 74). \<open>a\<close> is the shared pointer to the
  client and \<open>now\<close> the clock the function reads. A shared pointer keeps its object
  alive, so the first case does not arise in a call. A negotiated keep-alive of 0
  inserts no entry (section 4.4, edge case).
\<close>

definition queueClientNextKeepAliveCheck ::
    "instant \<Rightarrow> nat \<Rightarrow> bool \<Rightarrow> ThreadData \<Rightarrow> ThreadData" where
  "queueClientNextKeepAliveCheck now a keepRechecking s =
     (case client_objects s a of
        None \<Rightarrow> s
      | Some c \<Rightarrow>
          if keepalive c = 0 then s
          else s\<lparr>queuedKeepAliveChecks :=
                 bucket_push (keepAliveDeadline now c) \<lparr>client = a, recheck = keepRechecking\<rparr>
                   (queuedKeepAliveChecks s)\<rparr>)"

text \<open>
  Modelled from the spec: the disconnect of the client object \<open>a\<close>, whose state is \<open>c\<close>
  (sections 3 and 4.2). The object gets its reason, and the registry drops the entry of
  the client's handle when that entry is this client. Closing the socket and publishing
  the will are not part of this model.
\<close>

definition disconnectClient :: "nat \<Rightarrow> Client \<Rightarrow> DisconnectReason \<Rightarrow> ThreadData \<Rightarrow> ThreadData" where
  "disconnectClient a c reason s =
     s\<lparr>client_objects := (client_objects s)(a \<mapsto> c\<lparr>disconnect_reason := Some reason\<rparr>),
       clients_by_fd :=
         (if clients_by_fd s (fd c) = Some a then (clients_by_fd s)(fd c := None)
          else clients_by_fd s)\<rparr>"









subsection \<open>What the scheduler maintains for a client it watches\<close>

text \<open>
  A check \<open>x\<close> of the client \<open>a\<close>, whose state is \<open>c\<close>, that will catch the client: its
  bucket falls due less than a second after the last activity plus \<open>1.5 K\<close>, and it is
  a rechecking one (when \<open>rearm\<close>) or falls due only when the client has timed out.
\<close>

definition good_check :: "bool \<Rightarrow> nat \<Rightarrow> Client \<Rightarrow> seconds \<times> KeepAliveCheck \<Rightarrow> bool" where
  "good_check rearm a c x \<longleftrightarrow>
     client (snd x) = a \<and>
     1000 * fst x < last_activity c + keepAliveWindow c + 1000 \<and>
     (if rearm then recheck (snd x) else last_activity c + keepAliveWindow c \<le> 1000 * fst x)"



text \<open>A check taken out of a bucket that fires at \<open>now\<close> and will catch the client.\<close>

definition pending_good :: "bool \<Rightarrow> instant \<Rightarrow> nat \<Rightarrow> Client \<Rightarrow> KeepAliveCheck \<Rightarrow> bool" where
  "pending_good rearm now a c k \<longleftrightarrow>
     client k = a \<and> (if rearm then recheck k else last_activity c + keepAliveWindow c \<le> now)"



section \<open>The task queue of a worker\<close>

text \<open>
  Modelled from the spec: the task queue and its drain (section 4.3). threaddata.h
  declares the members \<open>taskQueue\<close> (line 90) and \<open>taskEventFd\<close> (line 88); the code that
  posts and the loop that drains are not part of the sources. \<open>taskEventFd_count\<close> is
  the counter of the event descriptor, \<open>copiedTasks\<close> the list the drain has swapped out
  and not run yet, and \<open>executed\<close> the closures the worker has run, oldest first.
  Running a closure is recorded there; what the closure does to the rest of the worker
  is not part of this model.
\<close>

record 'f task_loop =
  taskQueue :: "'f list"
  taskEventFd_count :: nat
  copiedTasks :: "'f list"
  executed :: "'f list"

text \<open>
  Modelled from the spec: \<open>post(f)\<close> takes the mutex, appends, releases and signals
  the wakeup handle. The mutex makes the step atomic.
\<close>

definition post :: "'f \<Rightarrow> 'f task_loop \<Rightarrow> 'f task_loop" where
  "post f s = s\<lparr>taskQueue := taskQueue s @ [f], taskEventFd_count := Suc (taskEventFd_count s)\<rparr>"

text \<open>
  Modelled from the spec: the drain begins by swapping the current list out under the
  mutex, which also reads the event descriptor back to zero. The worker begins a drain
  only when the one before has run all its closures; otherwise the step does nothing.
\<close>

definition drain_swap :: "'f task_loop \<Rightarrow> 'f task_loop" where
  "drain_swap s =
     (if copiedTasks s = []
      then s\<lparr>copiedTasks := taskQueue s, taskQueue := [], taskEventFd_count := 0\<rparr>
      else s)"

text \<open>
  Modelled from the spec: the drain runs the closures of the swapped-out list from its
  front, without holding the mutex; this is the step for one closure.
\<close>

definition drain_run :: "'f task_loop \<Rightarrow> 'f task_loop" where
  "drain_run s =
     (case copiedTasks s of
        [] \<Rightarrow> s
      | f # fs \<Rightarrow> s\<lparr>copiedTasks := fs, executed := executed s @ [f]\<rparr>)"

text \<open>
  Modelled from the spec: what happens around one queue, in the order in which the
  mutex lets it happen. A thread \<open>p\<close> posts a closure, or the worker swaps the list out,
  or the worker runs the next closure. A closure that posts while it runs is a \<open>Post\<close>
  of the worker's own thread, and lands in the list of the next drain. In the queue
  every closure is paired with the thread that posted it.
\<close>

datatype ('p, 'f) loop_event = Post 'p 'f | DrainSwap | DrainRun

text \<open>Modelled from the spec: the effect of one such event on the queue of the worker.\<close>

fun loop_step :: "('p, 'f) loop_event \<Rightarrow> ('p \<times> 'f) task_loop \<Rightarrow> ('p \<times> 'f) task_loop" where
  "loop_step (Post p f) s = post (p, f) s"
| "loop_step DrainSwap s = drain_swap s"
| "loop_step DrainRun s = drain_run s"

text \<open>Modelled from the spec: the events of an interleaving, one after the other.\<close>

fun loop_run :: "('p, 'f) loop_event list \<Rightarrow> ('p \<times> 'f) task_loop \<Rightarrow> ('p \<times> 'f) task_loop" where
  "loop_run [] s = s"
| "loop_run (e # es) s = loop_run es (loop_step e s)"

text \<open>Modelled from the spec: a worker that has just started, with nothing posted.\<close>

definition loop_init :: "'f task_loop" where
  "loop_init = \<lparr>taskQueue = [], taskEventFd_count = 0, copiedTasks = [], executed = []\<rparr>"

text \<open>The closures the thread \<open>p\<close> posted, in the order in which it posted them.\<close>

fun posted_by :: "'p \<Rightarrow> ('p, 'f) loop_event list \<Rightarrow> 'f list" where
  "posted_by p [] = []"
| "posted_by p (Post q f # es) = (if q = p then f # posted_by p es else posted_by p es)"
| "posted_by p (DrainSwap # es) = posted_by p es"
| "posted_by p (DrainRun # es) = posted_by p es"

text \<open>The closures of the thread \<open>p\<close> in a list of posted closures, in the order of the list.\<close>

definition tasks_of :: "'p \<Rightarrow> ('p \<times> 'f) list \<Rightarrow> 'f list" where
  "tasks_of p ts = map snd (filter (\<lambda>t. fst t = p) ts)"

text \<open>
  The closures of \<open>p\<close> that the worker holds, from the ones already run to the ones
  posted last.
\<close>

definition in_order :: "'p \<Rightarrow> ('p \<times> 'f) task_loop \<Rightarrow> 'f list" where
  "in_order p s = tasks_of p (executed s) @ tasks_of p (copiedTasks s) @ tasks_of p (taskQueue s)"

section \<open>The keep-alive scheduler: a silent client is disconnected\<close>








lemma keepAliveWindow_reason [simp]:
  "keepAliveWindow (c\<lparr>disconnect_reason := r\<rparr>) = keepAliveWindow c"
  by (simp add: keepAliveWindow_def)

lemma good_check_reason [simp]:
  "good_check rearm a (c\<lparr>disconnect_reason := r\<rparr>) x = good_check rearm a c x"
  by (simp add: good_check_def)

lemma pending_good_reason [simp]:
  "pending_good rearm now a (c\<lparr>disconnect_reason := r\<rparr>) k = pending_good rearm now a c k"
  by (simp add: pending_good_def)


lemma queue_frame [simp]:
  "client_objects (queueClientNextKeepAliveCheck t b r s) = client_objects s"
  "clients_by_fd (queueClientNextKeepAliveCheck t b r s) = clients_by_fd s"
  by (simp_all add: queueClientNextKeepAliveCheck_def split: option.splits)


















lemma checks_of_disconnect [simp]:
  "checks_of a (disconnectClient b c' reason s) = checks_of a s"
  by (simp add: checks_of_def disconnectClient_def)









section \<open>The task queue: first in, first out for every posting thread\<close>

lemma tasks_of_Nil: "tasks_of p [] = []"
  by (simp add: tasks_of_def)

lemma in_order_step: "in_order p (loop_step e s) = in_order p s @ posted_by p [e]"
proof (cases e)
  case (Post q f)
  then show ?thesis
    by (simp add: in_order_def post_def tasks_of_def)
next
  case DrainSwap
  then show ?thesis
    by (simp add: in_order_def drain_swap_def tasks_of_def)
next
  case DrainRun
  then show ?thesis
    by (cases "copiedTasks s") (simp_all add: in_order_def drain_run_def tasks_of_def)
qed

lemma posted_by_Cons: "posted_by p (e # es) = posted_by p [e] @ posted_by p es"
  by (cases e) simp_all

lemma in_order_run: "in_order p (loop_run es s) = in_order p s @ posted_by p es"
proof (induction es arbitrary: s)
  case Nil
  then show ?case by simp
next
  case (Cons e es)
  have "in_order p (loop_run (e # es) s) = in_order p (loop_step e s) @ posted_by p es"
    using Cons.IH by simp
  also have "\<dots> = in_order p s @ posted_by p [e] @ posted_by p es"
    by (simp add: in_order_step)
  finally show ?case
    using posted_by_Cons [of p e es] by simp
qed

lemma in_order_init: "in_order p loop_init = []"
  by (simp add: in_order_def loop_init_def tasks_of_def)

text \<open>
  C2. For any one posting thread \<open>p\<close> and any interleaving \<open>es\<close> of posts and drain
  steps on the queue of one worker: the closures of \<open>p\<close> the worker has run, followed by
  those of \<open>p\<close> it has swapped out and by those of \<open>p\<close> still queued, are the closures
  \<open>p\<close> posted, in the order in which \<open>p\<close> posted them. So the drain runs them in exactly
  that order, and once nothing is pending it has run all of them.
\<close>

theorem task_queue_fifo_per_producer:
  "tasks_of p (executed (loop_run es loop_init)) @
   tasks_of p (copiedTasks (loop_run es loop_init)) @
   tasks_of p (taskQueue (loop_run es loop_init)) = posted_by p es \<and>
   (copiedTasks (loop_run es loop_init) = [] \<and> taskQueue (loop_run es loop_init) = [] \<longrightarrow>
      tasks_of p (executed (loop_run es loop_init)) = posted_by p es)"
proof -
  have "in_order p (loop_run es loop_init) = posted_by p es"
    by (simp only: in_order_run in_order_init append_Nil)
  then show ?thesis
    by (auto simp: in_order_def tasks_of_Nil)
qed

theorem task_queue_fifo_per_producer_witness:
  "copiedTasks (loop_run
     [Post (1 :: nat) ''a'', Post 2 ''x'', DrainSwap, Post 1 ''b'', DrainRun, DrainRun,
      Post 2 ''y'', Post 1 ''c'', DrainSwap, DrainRun, DrainRun, DrainRun] loop_init) = [] \<and>
   taskQueue (loop_run
     [Post (1 :: nat) ''a'', Post 2 ''x'', DrainSwap, Post 1 ''b'', DrainRun, DrainRun,
      Post 2 ''y'', Post 1 ''c'', DrainSwap, DrainRun, DrainRun, DrainRun] loop_init) = [] \<and>
   tasks_of 1 (executed (loop_run
     [Post (1 :: nat) ''a'', Post 2 ''x'', DrainSwap, Post 1 ''b'', DrainRun, DrainRun,
      Post 2 ''y'', Post 1 ''c'', DrainSwap, DrainRun, DrainRun, DrainRun] loop_init))
     = [''a'', ''b'', ''c'']"
proof -
  let ?es = "[Post (1 :: nat) ''a'', Post 2 ''x'', DrainSwap, Post 1 ''b'', DrainRun, DrainRun,
      Post 2 ''y'', Post 1 ''c'', DrainSwap, DrainRun, DrainRun, DrainRun]"
  have drained: "copiedTasks (loop_run ?es loop_init) = [] \<and> taskQueue (loop_run ?es loop_init) = []"
    by (simp add: loop_init_def post_def drain_swap_def drain_run_def)
  have posted: "posted_by 1 ?es = [''a'', ''b'', ''c'']"
    by simp
  from task_queue_fifo_per_producer [of 1 ?es] drained posted show ?thesis
    by simp
qed

section \<open>Properties of \<open>check\<close>\<close>

text \<open>
  C10. For every \<open>rc\<close>, \<open>check<T>(rc)\<close> returns \<open>rc\<close> unchanged when \<open>rc >= 0\<close>, throws
  the exception \<open>T\<close> built from the message of the current \<open>errno\<close> when \<open>rc < 0\<close>, and
  never returns a negative value.
\<close>

theorem check_returns_nonnegative_or_throws:
  "(0 \<le> sint rc \<longrightarrow> check T strerror errno rc = Inr rc) \<and>
   (sint rc < 0 \<longrightarrow> check T strerror errno rc = Inl (T (strerror errno))) \<and>
   (\<forall>r. check T strerror errno rc = Inr r \<longrightarrow> 0 \<le> sint r)"
  by (simp add: check_def Let_def)

theorem check_returns_nonnegative_or_throws_witness:
  "check Some (\<lambda>e. if e = 9 then ''Bad file descriptor'' else ''Unknown error'') 9 7 = Inr 7 \<and>
   check Some (\<lambda>e. if e = 9 then ''Bad file descriptor'' else ''Unknown error'') 9 (- 1)
     = Inl (Some ''Bad file descriptor'')"
  using check_returns_nonnegative_or_throws
    [of 7 Some "\<lambda>e. if e = 9 then ''Bad file descriptor'' else ''Unknown error''" 9]
    check_returns_nonnegative_or_throws
    [of "- 1" Some "\<lambda>e. if e = 9 then ''Bad file descriptor'' else ''Unknown error''" 9]
  by simp

section \<open>Properties of \<open>AuthResult\<close>\<close>

text \<open>
  C7. The enumeration \<open>AuthResult\<close> has exactly the values \<open>success = 0\<close>,
  \<open>auth_method_not_supported = 10\<close>, \<open>login_denied = 11\<close>, \<open>acl_denied = 12\<close>,
  \<open>error = 13\<close> and \<open>auth_continue = -4\<close>.
\<close>

theorem AuthResult_values:
  "AuthResult_value success = 0 \<and>
   AuthResult_value auth_method_not_supported = 10 \<and>
   AuthResult_value login_denied = 11 \<and>
   AuthResult_value acl_denied = 12 \<and>
   AuthResult_value error = 13 \<and>
   AuthResult_value auth_continue = - 4 \<and>
   (UNIV :: AuthResult set) =
     {success, auth_method_not_supported, login_denied, acl_denied, error, auth_continue} \<and>
   range AuthResult_value = {0, 10, 11, 12, 13, - 4}"
proof -
  have all: "(UNIV :: AuthResult set) =
     {success, auth_method_not_supported, login_denied, acl_denied, error, auth_continue}"
  proof (rule set_eqI)
    fix a :: AuthResult
    show "a \<in> UNIV \<longleftrightarrow>
      a \<in> {success, auth_method_not_supported, login_denied, acl_denied, error, auth_continue}"
      by (cases a) simp_all
  qed
  have "range AuthResult_value = AuthResult_value `
     {success, auth_method_not_supported, login_denied, acl_denied, error, auth_continue}"
    by (simp only: all)
  then have "range AuthResult_value = {0, 10, 11, 12, 13, - 4}"
    by auto
  with all show ?thesis
    by simp
qed

end
